theory Spec2Isabelle
  imports Complex_Main
begin

section \<open>Errors\<close>

text \<open>
  The Python exceptions that the modelled code paths of \<open>train.py\<close> can raise. A function
  that can raise returns a sum, \<open>Inl\<close> carrying the exception.
\<close>

datatype error =
    ZeroDivisionError
  | TypeError
  | AttributeError
  | RuntimeError
  | ValueError
  | IndexError
  | NameError
  | SyntaxError

section \<open>Model Adapter: \<open>net\<close>\<close>

text \<open>
  A layer of the head is an \<open>nn.Linear(in_features, out_features)\<close> or an \<open>nn.ReLU()\<close>.
  Widths are sizes, hence natural numbers.
\<close>

datatype layer = Linear nat nat | ReLU

text \<open>
  Lines 142 to 150 of \<open>train.py\<close>:
  \<^verbatim>\<open>
    full = [num_features,]+layers+[num_classes,]
    seq = list()
    for i in range(len(full)-2):
        seq.append(nn.Linear(full[i], full[i+1]))
        seq.append(nn.ReLU())
    seq.append(nn.Linear(full[-2], full[-1]))
  \<close>
  \<open>full\<close> has at least two entries, so \<open>full[-2]\<close> and \<open>full[-1]\<close> are the entries at
  \<open>len(full)-2\<close> and \<open>len(full)-1\<close> and every index read is in range.
\<close>

definition net_fc :: "nat \<Rightarrow> nat \<Rightarrow> nat list \<Rightarrow> layer list" where
  "net_fc num_features num_classes layers =
     (let full = [num_features] @ layers @ [num_classes];
          seq = fold (\<lambda>i seq. seq @ [Linear (full ! i) (full ! (i + 1)), ReLU])
                     [0 ..< length full - 2] []
      in seq @ [Linear (full ! (length full - 2)) (full ! (length full - 1))])"

text \<open>
  The head as the specification words it: the widths \<open>[F, h1, ..., hk, num_classes]\<close> give one
  linear layer per pair of neighbours, and an activation follows every linear layer except
  the last.
\<close>

fun head_of_widths :: "nat \<Rightarrow> nat list \<Rightarrow> nat \<Rightarrow> layer list" where
  "head_of_widths F [] num_classes = [Linear F num_classes]"
| "head_of_widths F (h # hs) num_classes = Linear F h # ReLU # head_of_widths h hs num_classes"

fun is_Linear :: "layer \<Rightarrow> bool" where
  "is_Linear (Linear a b) = True"
| "is_Linear ReLU = False"

text \<open>
  Line 304 of \<open>train.py\<close>, for non-negative exponents:
  \<^verbatim>\<open>args.layers= 2**args.num_layers*[2**args.num_neurons,]\<close>
  Python's \<open>k * xs\<close> on a list is \<open>k\<close> copies of \<open>xs\<close> in a row.
\<close>

definition args_layers :: "nat \<Rightarrow> nat \<Rightarrow> nat list" where
  "args_layers num_layers num_neurons = concat (replicate (2 ^ num_layers) [2 ^ num_neurons])"


text \<open>
  A parameter tensor of a model, as far as \<open>net\<close> touches it: its name in the module tree and
  its \<open>requires_grad\<close> flag. Parameters of the new head are the children of the
  \<open>nn.Sequential\<close> stored under \<open>fc\<close>: child \<open>i\<close> owns \<open>fc.i.weight\<close> and \<open>fc.i.bias\<close>.
\<close>

datatype pname = Trunk string | Head nat string

record param =
  p_name :: pname
  requires_grad :: bool

text \<open>
  A torchvision model: the parameters outside the attribute \<open>fc\<close>, and the attribute \<open>fc\<close>
  itself (its layers and their parameters), \<open>None\<close> for an architecture that has no
  attribute \<open>fc\<close>.
\<close>

record model =
  trunk :: "param list"
  fc :: "(layer list \<times> param list) option"















section \<open>Dataset Partitioner: \<open>create_data_loaders\<close>\<close>

text \<open>The torchvision transforms named in lines 160 to 171.\<close>

datatype transform =
    RandomResizedCrop nat nat
  | RandomHorizontalFlip
  | ToTensor
  | Normalize "real list" "real list"
  | Resize nat nat

definition train_transform :: "transform list" where
  "train_transform =
     [RandomResizedCrop 224 224, RandomHorizontalFlip, ToTensor,
      Normalize [1/2, 1/2, 1/2] [1/2, 1/2, 1/2]]"

definition test_transform :: "transform list" where
  "test_transform =
     [Resize 224 224, ToTensor, Normalize [1/2, 1/2, 1/2] [1/2, 1/2, 1/2]]"

fun is_random :: "transform \<Rightarrow> bool" where
  "is_random (RandomResizedCrop h w) = True"
| "is_random RandomHorizontalFlip = True"
| "is_random other = False"

text \<open>
  An \<open>ImageFolder\<close> holds its samples (image, label) and the transform it applies to an image
  each time an item is read; a \<open>Subset\<close> refers to its dataset and lists indices into it;
  a \<open>DataLoader\<close> refers to a dataset and carries batch size and shuffle flag.
\<close>

record 'img image_folder =
  ds_samples :: "('img \<times> nat) list"
  ds_transform :: "transform list"

record 'img subset =
  sub_dataset :: "'img image_folder"
  sub_indices :: "nat list"

record 'img data_loader =
  dl_dataset :: "'img subset"
  dl_batch_size :: nat
  dl_shuffle :: bool

text \<open>
  \<open>create_data_loaders\<close>, lines 158 to 199. The directory read by \<open>ImageFolder\<close> is the
  parameter \<open>folder\<close> (the samples under a path, or the exception \<open>ImageFolder\<close> raises), and
  the outcome of \<open>random_split(data, [0.8,0.1,0.1])\<close> is the parameter \<open>split\<close>: the three index
  lists. \<open>DataLoader\<close> refuses a batch size of 0 with ValueError. \<open>test_transform\<close> is built
  in lines 167 to 171 and used nowhere: the one \<open>ImageFolder\<close>, with \<open>train_transform\<close>, is
  what all three subsets refer to.
\<close>

definition create_data_loaders ::
  "(string \<Rightarrow> error + ('img \<times> nat) list) \<Rightarrow> (nat list \<times> nat list \<times> nat list) \<Rightarrow> string \<Rightarrow> nat
   \<Rightarrow> error + ('img data_loader \<times> 'img data_loader \<times> 'img data_loader)" where
  "create_data_loaders folder split data_path batch_size =
     (case folder data_path of
        Inl e \<Rightarrow> Inl e
      | Inr samples \<Rightarrow>
          (let data = \<lparr>ds_samples = samples, ds_transform = train_transform\<rparr>;
               train_data = \<lparr>sub_dataset = data, sub_indices = fst split\<rparr>;
               valid_data = \<lparr>sub_dataset = data, sub_indices = fst (snd split)\<rparr>;
               test_data = \<lparr>sub_dataset = data, sub_indices = snd (snd split)\<rparr>
           in if batch_size = 0 then Inl ValueError
              else Inr (\<lparr>dl_dataset = train_data, dl_batch_size = batch_size, dl_shuffle = True\<rparr>,
                        \<lparr>dl_dataset = valid_data, dl_batch_size = batch_size, dl_shuffle = False\<rparr>,
                        \<lparr>dl_dataset = test_data, dl_batch_size = batch_size, dl_shuffle = False\<rparr>)))"

section \<open>Evaluation Reporter: \<open>test\<close>\<close>

text \<open>
  What \<open>test\<close> reads through its loader belongs to torchvision and torch, not to the
  repository, so it is a parameter: the meaning of each transform on an image. The random
  transforms draw from torch's global random generator, whose state is threaded explicitly;
  \<open>Resize\<close>, \<open>ToTensor\<close> and \<open>Normalize\<close> are functions of the image alone. \<open>tv_randperm\<close> is
  the order a shuffling loader draws for one pass.
\<close>

record ('img, 'rng) tv =
  tv_random_resized_crop :: "nat \<Rightarrow> nat \<Rightarrow> 'img \<Rightarrow> 'rng \<Rightarrow> 'img \<times> 'rng"
  tv_random_horizontal_flip :: "'img \<Rightarrow> 'rng \<Rightarrow> 'img \<times> 'rng"
  tv_resize :: "nat \<Rightarrow> nat \<Rightarrow> 'img \<Rightarrow> 'img"
  tv_to_tensor :: "'img \<Rightarrow> 'img"
  tv_normalize :: "real list \<Rightarrow> real list \<Rightarrow> 'img \<Rightarrow> 'img"
  tv_randperm :: "nat list \<Rightarrow> 'rng \<Rightarrow> nat list \<times> 'rng"

fun apply_transform :: "('img, 'rng) tv \<Rightarrow> transform \<Rightarrow> 'img \<Rightarrow> 'rng \<Rightarrow> 'img \<times> 'rng" where
  "apply_transform lib (RandomResizedCrop h w) img rng = tv_random_resized_crop lib h w img rng"
| "apply_transform lib RandomHorizontalFlip img rng = tv_random_horizontal_flip lib img rng"
| "apply_transform lib ToTensor img rng = (tv_to_tensor lib img, rng)"
| "apply_transform lib (Normalize mean std) img rng = (tv_normalize lib mean std img, rng)"
| "apply_transform lib (Resize h w) img rng = (tv_resize lib h w img, rng)"

text \<open>\<open>transforms.Compose\<close>: the transforms in order.\<close>

fun Compose :: "('img, 'rng) tv \<Rightarrow> transform list \<Rightarrow> 'img \<Rightarrow> 'rng \<Rightarrow> 'img \<times> 'rng" where
  "Compose lib [] img rng = (img, rng)"
| "Compose lib (t # ts) img rng =
     (case apply_transform lib t img rng of (img', rng') \<Rightarrow> Compose lib ts img' rng')"

text \<open>Reading item \<open>idx\<close> of an \<open>ImageFolder\<close>: the stored image through the transform.\<close>

definition getitem ::
  "('img, 'rng) tv \<Rightarrow> 'img image_folder \<Rightarrow> nat \<Rightarrow> 'rng \<Rightarrow> error + (('img \<times> nat) \<times> 'rng)" where
  "getitem lib ds idx rng =
     (if idx < length (ds_samples ds)
      then (case ds_samples ds ! idx of (img, target) \<Rightarrow>
              (case Compose lib (ds_transform ds) img rng of (x, rng') \<Rightarrow> Inr ((x, target), rng')))
      else Inl IndexError)"

fun fetch ::
  "('img, 'rng) tv \<Rightarrow> 'img image_folder \<Rightarrow> nat list \<Rightarrow> 'rng
   \<Rightarrow> error + (('img \<times> nat) list \<times> 'rng)" where
  "fetch lib ds [] rng = Inr ([], rng)"
| "fetch lib ds (idx # idxs) rng =
     (case getitem lib ds idx rng of
        Inl e \<Rightarrow> Inl e
      | Inr (item, rng') \<Rightarrow>
          (case fetch lib ds idxs rng' of
             Inl e \<Rightarrow> Inl e
           | Inr (items, rng'') \<Rightarrow> Inr (item # items, rng'')))"

text \<open>The batches of a loader: consecutive runs of \<open>batch_size\<close> indices, the last one shorter.\<close>

function batches :: "nat \<Rightarrow> 'a list \<Rightarrow> 'a list list" where
  "batches n xs = (if n = 0 \<or> xs = [] then [] else take n xs # batches n (drop n xs))"
  by pat_completeness auto
termination
  by (relation "measure (\<lambda>(n, xs). length xs)") auto

text \<open>
  The model as \<open>test\<close> uses it, in eval mode under \<open>no_grad\<close>: for a batch, the predicted
  classes \<open>model(data).max(1)[1]\<close> and the number \<open>criterion(model(data), target).item()\<close>.
\<close>

record 'img classifier =
  predict :: "'img list \<Rightarrow> nat list"
  batch_loss :: "'img list \<Rightarrow> nat list \<Rightarrow> real"

text \<open>Lines 38 to 45, the loop over the batches with its two accumulators.\<close>

fun test_loop ::
  "('img, 'rng) tv \<Rightarrow> 'img classifier \<Rightarrow> 'img image_folder \<Rightarrow> nat list list
   \<Rightarrow> real \<times> nat \<Rightarrow> 'rng \<Rightarrow> error + ((real \<times> nat) \<times> 'rng)" where
  "test_loop lib mdl ds [] acc rng = Inr (acc, rng)"
| "test_loop lib mdl ds (b # bs) (test_loss, correct) rng =
     (case fetch lib ds b rng of
        Inl e \<Rightarrow> Inl e
      | Inr (items, rng') \<Rightarrow>
          (let data = map fst items;
               target = map snd items;
               loss = batch_loss mdl data target;
               pred = predict mdl data
           in test_loop lib mdl ds bs
                (test_loss + loss * real (length data),
                 correct + length (filter (\<lambda>(p, t). p = t) (zip pred target)))
                rng'))"

text \<open>What line 47 logs: accuracy in percent, correct count, total, average loss.\<close>

record report =
  accuracy :: real
  n_correct :: nat
  n_total :: nat
  average_loss :: real

text \<open>\<open>test\<close>, lines 26 to 49; \<open>test_loss /= l\<close> raises on an empty dataset.\<close>

definition test ::
  "('img, 'rng) tv \<Rightarrow> 'img classifier \<Rightarrow> 'img data_loader \<Rightarrow> 'rng \<Rightarrow> error + (report \<times> 'rng)" where
  "test lib mdl test_loader rng =
     (let part = dl_dataset test_loader;
          l = length (sub_indices part);
          (order, rng1) = (if dl_shuffle test_loader then tv_randperm lib (sub_indices part) rng
                           else (sub_indices part, rng))
      in case test_loop lib mdl (sub_dataset part) (batches (dl_batch_size test_loader) order)
                (0, 0) rng1 of
           Inl e \<Rightarrow> Inl e
         | Inr ((test_loss, correct), rng2) \<Rightarrow>
             if l = 0 then Inl ZeroDivisionError
             else Inr (\<lparr>accuracy = 100 * real correct / real l, n_correct = correct,
                        n_total = l, average_loss = test_loss / real l\<rparr>, rng2))"

text \<open>
  A small instance to run \<open>test\<close> on. An image is one row of pixels; the random source is
  the list of numbers, in percent, still to be drawn. The horizontal flip draws one number
  and mirrors the row when it is below 50, as torchvision mirrors when \<open>torch.rand(1) < 0.5\<close>;
  the random crop draws one number and here keeps the row; the other transforms keep it.
\<close>

definition row_tv :: "(nat list, nat list) tv" where
  "row_tv =
     \<lparr>tv_random_resized_crop = (\<lambda>h w img rng. (img, tl rng)),
      tv_random_horizontal_flip =
        (\<lambda>img rng. case rng of [] \<Rightarrow> (img, []) | r # rs \<Rightarrow> (if r < 50 then rev img else img, rs)),
      tv_resize = (\<lambda>h w img. img),
      tv_to_tensor = (\<lambda>img. img),
      tv_normalize = (\<lambda>mean std img. img),
      tv_randperm = (\<lambda>idxs rng. (rev idxs, tl rng))\<rparr>"

text \<open>A classifier that answers with the leftmost pixel; its loss is the share of wrong answers.\<close>

definition left_pixel :: "nat list classifier" where
  "left_pixel =
     \<lparr>predict = map (\<lambda>img. case img of [] \<Rightarrow> 0 | x # _ \<Rightarrow> x),
      batch_loss = (\<lambda>data target.
        real (length (filter (\<lambda>(img, t). (case img of [] \<Rightarrow> 0 | x # _ \<Rightarrow> x) \<noteq> t) (zip data target)))
        / real (length data))\<rparr>"

text \<open>
  A folder of ten images, which \<open>random_split(data, [0.8,0.1,0.1])\<close> parts into 8, 1 and 1.
\<close>

definition ten_images :: "string \<Rightarrow> error + (nat list \<times> nat) list" where
  "ten_images data_path =
     Inr [([1, 0], 1), ([0, 1], 0), ([1, 1], 1), ([0, 0], 0), ([1, 0], 1),
          ([0, 1], 0), ([1, 1], 1), ([0, 0], 0), ([1, 0], 1), ([0, 1], 0)]"

section \<open>Training Controller: \<open>train\<close>\<close>

text \<open>
  The parameters of the live model are tensors whose contents \<open>optimizer.step()\<close> changes in
  place, and \<open>model.state_dict()\<close> hands out tensors that share their storage with the
  parameters (it detaches, it does not copy). What line 119 stores in \<open>best_model\<close> depends
  on that sharing, so tensor contents live in an explicit store: an address per tensor
  storage, and a heap from addresses to contents.
\<close>

type_synonym addr = nat
type_synonym 'v heap = "addr \<Rightarrow> 'v"
type_synonym state_dict = "(string \<times> addr) list"

text \<open>The model as \<open>train\<close> sees it: its named tensors, each at its storage address.\<close>

record tmodel =
  tensors :: "(string \<times> addr) list"

text \<open>
  \<open>model.state_dict()\<close>: each name with a tensor on the parameter's own storage. torch fills
  the dictionary with \<open>param.detach()\<close>, a new tensor object over the same memory; a snapshot
  that survives later optimizer steps needs a copy (\<open>copy.deepcopy\<close> or \<open>clone\<close>), which line 119
  does not make.
\<close>

definition state_dict :: "tmodel \<Rightarrow> state_dict" where
  "state_dict mdl = tensors mdl"

text \<open>
  \<open>model.load_state_dict(sd)\<close>: \<open>None\<close> is not a mapping and raises TypeError (older torch
  versions fail on \<open>None.copy()\<close> with AttributeError instead; either way the call raises);
  keys that do not match the model's raise RuntimeError (strict loading); otherwise each
  parameter receives, by \<open>param.copy_(input)\<close>, the present contents of the tensor stored
  under its name.
\<close>

definition load_state_dict :: "tmodel \<Rightarrow> state_dict option \<Rightarrow> 'v heap \<Rightarrow> error + 'v heap" where
  "load_state_dict mdl sd h =
     (case sd of
        None \<Rightarrow> Inl TypeError
      | Some d \<Rightarrow>
          if set (map fst d) \<noteq> set (map fst (tensors mdl)) then Inl RuntimeError
          else Inr (fold (\<lambda>(name, a) h'. case map_of d name of
                                            None \<Rightarrow> h'
                                          | Some b \<Rightarrow> h'(a := h' b))
                         (tensors mdl) h))"

text \<open>
  The two passes of one epoch are torch's work on the loaders: \<open>train_pass i\<close> is what lines
  71 to 86 do to the stored tensors in epoch \<open>i\<close> (the optimizer steps, in place), and
  \<open>valid_pass i\<close> is \<open>correct_val\<close> after lines 100 to 110, read off the stored tensors.
  Neither depends on \<open>best_score\<close>, \<open>best_model\<close> or \<open>count\<close>. \<open>len_train\<close> and \<open>len_valid\<close> are
  \<open>l\<close> and \<open>m\<close>, the sizes of the two datasets.
\<close>

record 'v env =
  train_pass :: "nat \<Rightarrow> 'v heap \<Rightarrow> 'v heap"
  valid_pass :: "nat \<Rightarrow> 'v heap \<Rightarrow> nat"
  len_train :: nat
  len_valid :: nat

text \<open>
  The variables of \<open>train\<close>: the number of epochs validated so far (the loop index \<open>i\<close> of the
  next one), \<open>best_score\<close>, \<open>best_model\<close>, \<open>count\<close>, the heap, and the scores logged by line 114.
\<close>

record 'v tstate =
  epochs_done :: nat
  best_score :: real
  best_model :: "state_dict option"
  count :: nat
  heap :: "'v heap"
  val_log :: "real list"

datatype flow = Continue | Break

text \<open>
  One iteration of the loop, lines 62 to 126. \<open>train_losses /= l\<close> and \<open>val_losses /= m\<close>
  raise ZeroDivisionError on an empty dataset; an exception leaves with the state reached.
\<close>

definition epoch ::
  "'v env \<Rightarrow> tmodel \<Rightarrow> int \<Rightarrow> 'v tstate \<Rightarrow> (error \<times> 'v tstate) + (flow \<times> 'v tstate)" where
  "epoch E mdl tol s =
     (let i = epochs_done s in
      if len_train E = 0 then Inl (ZeroDivisionError, s)
      else
        let s1 = s\<lparr>heap := train_pass E i (heap s)\<rparr> in
        if len_valid E = 0 then Inl (ZeroDivisionError, s1)
        else
          let correct_val = valid_pass E i (heap s1);
              score = 100 * real correct_val / real (len_valid E);
              s2 = s1\<lparr>val_log := val_log s1 @ [score], epochs_done := i + 1\<rparr>
          in if best_score s2 < score
             then Inr (Continue,
                       s2\<lparr>best_score := score, best_model := Some (state_dict mdl), count := 0\<rparr>)
             else
               let s3 = s2\<lparr>count := count s2 + 1\<rparr> in
               if int (count s3) = tol
               then (case load_state_dict mdl (best_model s3) (heap s3) of
                       Inl e \<Rightarrow> Inl (e, s3)
                     | Inr h \<Rightarrow> Inr (Break, s3\<lparr>heap := h\<rparr>))
               else Inr (Continue, s3))"

text \<open>\<open>for i in range(epochs)\<close>, with \<open>n\<close> iterations left.\<close>

fun train_loop ::
  "'v env \<Rightarrow> tmodel \<Rightarrow> int \<Rightarrow> nat \<Rightarrow> 'v tstate \<Rightarrow> (error \<times> 'v tstate) + 'v tstate" where
  "train_loop E mdl tol 0 s = Inr s"
| "train_loop E mdl tol (Suc n) s =
     (case epoch E mdl tol s of
        Inl x \<Rightarrow> Inl x
      | Inr (Break, s') \<Rightarrow> Inr s'
      | Inr (Continue, s') \<Rightarrow> train_loop E mdl tol n s')"

definition init_state :: "'v heap \<Rightarrow> 'v tstate" where
  "init_state h =
     \<lparr>epochs_done = 0, best_score = 0, best_model = None, count = 0, heap = h, val_log = []\<rparr>"

text \<open>
  \<open>train\<close>, lines 52 to 129: the loop from the initial variables (\<open>range\<close> of a non-positive
  number is empty), then line 129 loads \<open>best_model\<close> once more.
\<close>

definition train ::
  "'v env \<Rightarrow> tmodel \<Rightarrow> int \<Rightarrow> int \<Rightarrow> 'v heap \<Rightarrow> (error \<times> 'v tstate) + 'v tstate" where
  "train E mdl epochs tol h =
     (case train_loop E mdl tol (nat epochs) (init_state h) of
        Inl x \<Rightarrow> Inl x
      | Inr s \<Rightarrow>
          (case load_state_dict mdl (best_model s) (heap s) of
             Inl e \<Rightarrow> Inl (e, s)
           | Inr h' \<Rightarrow> Inr (s\<lparr>heap := h'\<rparr>)))"

text \<open>The state a run ends in, and whether it returned.\<close>

fun final_state :: "(error \<times> 'v tstate) + 'v tstate \<Rightarrow> 'v tstate" where
  "final_state (Inl (e, s)) = s"
| "final_state (Inr s) = s"

fun returns :: "(error \<times> 'v tstate) + 'v tstate \<Rightarrow> bool" where
  "returns (Inl x) = False"
| "returns (Inr s) = True"

text \<open>The contents of the model's tensors, in the order of its state dict.\<close>

definition contents :: "tmodel \<Rightarrow> 'v heap \<Rightarrow> 'v list" where
  "contents mdl h = map (\<lambda>(name, a). h a) (tensors mdl)"

text \<open>The heap after the training passes of the first \<open>k\<close> epochs.\<close>

fun heap_after :: "'v env \<Rightarrow> nat \<Rightarrow> 'v heap \<Rightarrow> 'v heap" where
  "heap_after E 0 h = h"
| "heap_after E (Suc k) h = train_pass E k (heap_after E k h)"

text \<open>
  What lines 117 to 122 make of a sequence of scores: the best so far, from 0, and the
  number of epochs since it was last exceeded.
\<close>

fun track :: "real list \<Rightarrow> real \<times> nat \<Rightarrow> real \<times> nat" where
  "track [] bc = bc"
| "track (x # xs) (b, c) = track xs (if b < x then (x, 0) else (b, c + 1))"

text \<open>
  A run to try \<open>train\<close> on: one tensor at address 0 holding a number that every training
  pass increases by one, and validation sets of 100 images on which the passes get the
  listed numbers right (0 once the list is used up).
\<close>

definition one_tensor :: tmodel where
  "one_tensor = \<lparr>tensors = [(''module.fc.0.weight'', 0)]\<rparr>"

definition scripted :: "nat list \<Rightarrow> int env" where
  "scripted cs =
     \<lparr>train_pass = (\<lambda>i h. h(0 := h 0 + 1)),
      valid_pass = (\<lambda>i h. if i < length cs then cs ! i else 0),
      len_train = 100,
      len_valid = 100\<rparr>"

definition zeros :: "int heap" where
  "zeros = (\<lambda>a. 0)"

text \<open>The score of the epoch that starts in state \<open>s\<close> (line 113), and the outcome of one epoch.\<close>

definition epoch_score :: "'v env \<Rightarrow> 'v tstate \<Rightarrow> real" where
  "epoch_score E s =
     100 * real (valid_pass E (epochs_done s) (train_pass E (epochs_done s) (heap s)))
       / real (len_valid E)"

fun after_epoch :: "(error \<times> 'v tstate) + (flow \<times> 'v tstate) \<Rightarrow> 'v tstate" where
  "after_epoch (Inl (e, s)) = s"
| "after_epoch (Inr (f, s)) = s"


text \<open>
  The variables agree with the logged scores: best score and counter are what \<open>track\<close>
  computes, and a snapshot is held exactly when some score exceeded 0.
\<close>

definition tracked :: "tmodel \<Rightarrow> 'v tstate \<Rightarrow> bool" where
  "tracked mdl s \<longleftrightarrow>
     track (val_log s) (0, 0) = (best_score s, count s)
   \<and> epochs_done s = length (val_log s)
   \<and> 0 \<le> best_score s
   \<and> best_model s = (if best_score s = 0 then None else Some (state_dict mdl))"

section \<open>Properties of the head\<close>

lemma fold_append_concat:
  "fold (\<lambda>i seq. seq @ f i) xs acc = acc @ concat (map f xs)"
  by (induction xs arbitrary: acc) simp_all

lemma net_fc_concat:
  "net_fc F c layers =
     concat (map (\<lambda>i. [Linear ((F # layers @ [c]) ! i) ((F # layers @ [c]) ! (i + 1)), ReLU])
                 [0 ..< length layers])
     @ [Linear ((F # layers @ [c]) ! length layers) ((F # layers @ [c]) ! (length layers + 1))]"
  by (simp add: net_fc_def Let_def fold_append_concat)

lemma head_of_widths_concat:
  "head_of_widths F layers c =
     concat (map (\<lambda>i. [Linear ((F # layers @ [c]) ! i) ((F # layers @ [c]) ! (i + 1)), ReLU])
                 [0 ..< length layers])
     @ [Linear ((F # layers @ [c]) ! length layers) ((F # layers @ [c]) ! (length layers + 1))]"
proof (induction layers arbitrary: F)
  case Nil
  show ?case by simp
next
  case (Cons h hs)
  have shift: "[0 ..< length (h # hs)] = 0 # map Suc [0 ..< length hs]"
    by (simp add: upt_conv_Cons map_Suc_upt del: upt_Suc)
  show ?case
    unfolding shift by (simp add: Cons.IH comp_def)
qed

lemma net_fc_head_of_widths: "net_fc F c layers = head_of_widths F layers c"
  by (simp add: net_fc_concat head_of_widths_concat)

lemma filter_head_of_widths:
  "filter is_Linear (head_of_widths F layers c) = map2 Linear (F # layers) (layers @ [c])"
  by (induction layers arbitrary: F) simp_all





text \<open>
  C8. For exponents \<open>n\<close> (\<open>--num-layers\<close>) and \<open>p\<close> (\<open>--num-neurons\<close>) the hidden-width list
  handed to \<open>net\<close> has \<open>2^n\<close> entries, each \<open>2^p\<close>, so the head has \<open>2^n\<close> hidden linear layers
  of \<open>2^p\<close> units; the defaults \<open>0, 0\<close> give one hidden layer of width 1.
\<close>

theorem args_layers_powers:
  "args_layers n p = replicate (2 ^ n) (2 ^ p)
   \<and> length (args_layers n p) = 2 ^ n
   \<and> set (args_layers n p) = {2 ^ p}
   \<and> length (filter is_Linear (net_fc F num_classes (args_layers n p))) = 2 ^ n + 1
   \<and> args_layers 0 0 = [1]
   \<and> net_fc F num_classes (args_layers 0 0) = [Linear F 1, ReLU, Linear 1 num_classes]"
proof -
  have r: "concat (replicate k [x]) = replicate k x" for k and x :: nat
    by (induction k) simp_all
  have a: "args_layers n p = replicate (2 ^ n) (2 ^ p)"
    by (simp add: args_layers_def r)
  have z: "args_layers 0 0 = [1]"
    by (simp add: args_layers_def)
  show ?thesis
    by (simp add: a z net_fc_head_of_widths filter_head_of_widths)
qed

section \<open>Properties of \<open>net\<close>\<close>
















section \<open>Properties of the data loaders and of \<open>test\<close>\<close>

lemma train_transform_random:
  "RandomResizedCrop 224 224 \<in> set train_transform \<and> RandomHorizontalFlip \<in> set train_transform
   \<and> train_transform \<noteq> test_transform \<and> \<not> list_all (\<lambda>t. \<not> is_random t) train_transform
   \<and> list_all (\<lambda>t. \<not> is_random t) test_transform"
  by (simp add: train_transform_def test_transform_def)

text \<open>
  C3. The claim gives the validation and test partitions a resize-only transform. The code
  attaches \<open>train_transform\<close> to the one \<open>ImageFolder\<close> all three subsets share, so the
  validation and the test loader crop and flip at random as the training loader does, and
  \<open>test_transform\<close> is attached to none of them.
\<close>

theorem loaders_share_train_transform:
  assumes "create_data_loaders folder split data_path batch_size
             = Inr (train_loader, valid_loader, test_loader)"
  shows "ds_transform (sub_dataset (dl_dataset train_loader)) = train_transform
       \<and> ds_transform (sub_dataset (dl_dataset valid_loader)) = train_transform
       \<and> ds_transform (sub_dataset (dl_dataset test_loader)) = train_transform
       \<and> ds_transform (sub_dataset (dl_dataset valid_loader)) \<noteq> test_transform
       \<and> ds_transform (sub_dataset (dl_dataset test_loader)) \<noteq> test_transform
       \<and> RandomResizedCrop 224 224 \<in> set (ds_transform (sub_dataset (dl_dataset valid_loader)))
       \<and> RandomHorizontalFlip \<in> set (ds_transform (sub_dataset (dl_dataset valid_loader)))
       \<and> RandomResizedCrop 224 224 \<in> set (ds_transform (sub_dataset (dl_dataset test_loader)))
       \<and> RandomHorizontalFlip \<in> set (ds_transform (sub_dataset (dl_dataset test_loader)))"
proof -
  from assms have
    "ds_transform (sub_dataset (dl_dataset train_loader)) = train_transform
   \<and> ds_transform (sub_dataset (dl_dataset valid_loader)) = train_transform
   \<and> ds_transform (sub_dataset (dl_dataset test_loader)) = train_transform"
    by (auto simp: create_data_loaders_def Let_def split: sum.splits if_splits)
  with train_transform_random show ?thesis by simp
qed

theorem loaders_share_train_transform_witness:
  "\<exists>train_loader valid_loader test_loader.
     create_data_loaders ten_images ([1, 2, 3, 4, 5, 6, 7, 8], [9], [0]) ''data'' 1
       = Inr (train_loader, valid_loader, test_loader)
   \<and> dl_shuffle train_loader \<and> \<not> dl_shuffle valid_loader \<and> \<not> dl_shuffle test_loader
   \<and> sub_indices (dl_dataset valid_loader) = [9]
   \<and> sub_indices (dl_dataset test_loader) = [0]
   \<and> ds_transform (sub_dataset (dl_dataset valid_loader)) = train_transform
   \<and> ds_transform (sub_dataset (dl_dataset test_loader)) = train_transform
   \<and> ds_transform (sub_dataset (dl_dataset valid_loader)) \<noteq> test_transform
   \<and> ds_transform (sub_dataset (dl_dataset test_loader)) \<noteq> test_transform
   \<and> RandomHorizontalFlip \<in> set (ds_transform (sub_dataset (dl_dataset test_loader)))"
proof -
  define data :: "nat list image_folder" where
    "data = \<lparr>ds_samples = [([1, 0], 1), ([0, 1], 0), ([1, 1], 1), ([0, 0], 0), ([1, 0], 1),
                           ([0, 1], 0), ([1, 1], 1), ([0, 0], 0), ([1, 0], 1), ([0, 1], 0)],
            ds_transform = train_transform\<rparr>"
  define train_loader where
    "train_loader = \<lparr>dl_dataset = \<lparr>sub_dataset = data, sub_indices = [1, 2, 3, 4, 5, 6, 7, 8]\<rparr>,
                      dl_batch_size = 1, dl_shuffle = True\<rparr>"
  define valid_loader where
    "valid_loader = \<lparr>dl_dataset = \<lparr>sub_dataset = data, sub_indices = [9]\<rparr>,
                      dl_batch_size = 1, dl_shuffle = False\<rparr>"
  define test_loader where
    "test_loader = \<lparr>dl_dataset = \<lparr>sub_dataset = data, sub_indices = [0]\<rparr>,
                     dl_batch_size = 1, dl_shuffle = False\<rparr>"
  have run: "create_data_loaders ten_images ([1, 2, 3, 4, 5, 6, 7, 8], [9], [0]) ''data'' 1
               = Inr (train_loader, valid_loader, test_loader)"
    by (simp add: create_data_loaders_def ten_images_def Let_def data_def train_loader_def
        valid_loader_def test_loader_def)
  have flags: "dl_shuffle train_loader \<and> \<not> dl_shuffle valid_loader \<and> \<not> dl_shuffle test_loader
     \<and> sub_indices (dl_dataset valid_loader) = [9] \<and> sub_indices (dl_dataset test_loader) = [0]"
    by (simp add: train_loader_def valid_loader_def test_loader_def)
  from loaders_share_train_transform [OF run] run flags show ?thesis
    by blast
qed

text \<open>
  C5. The claim makes two runs of \<open>test\<close> on the same model and test partition agree. The
  test loader built by \<open>create_data_loaders\<close> flips at random, so the second run, which
  draws the next random numbers, can see other images than the first: here the first run
  scores 0 of 1 with loss 1, the second 1 of 1 with loss 0.
\<close>

theorem test_twice_differs:
  "case create_data_loaders ten_images ([1, 2, 3, 4, 5, 6, 7, 8], [9], [0]) ''data'' 1 of
     Inl e \<Rightarrow> False
   | Inr (train_loader, valid_loader, test_loader) \<Rightarrow>
       (case test row_tv left_pixel test_loader [10, 10, 90, 90] of
          Inl e \<Rightarrow> False
        | Inr (first, rng) \<Rightarrow>
            (case test row_tv left_pixel test_loader rng of
               Inl e \<Rightarrow> False
             | Inr (second, rng') \<Rightarrow>
                 first = \<lparr>accuracy = 0, n_correct = 0, n_total = 1, average_loss = 1\<rparr>
               \<and> second = \<lparr>accuracy = 100, n_correct = 1, n_total = 1, average_loss = 0\<rparr>))"
  by (simp add: create_data_loaders_def ten_images_def Let_def test_def train_transform_def
      getitem_def row_tv_def left_pixel_def)

subsection \<open>Without random transforms the report does not depend on the random source\<close>

lemma Compose_deterministic:
  "list_all (\<lambda>t. \<not> is_random t) ts \<Longrightarrow>
     Compose lib ts img rng = (fst (Compose lib ts img rng'), rng)"
proof (induction ts arbitrary: img)
  case Nil
  show ?case by simp
next
  case (Cons t ts)
  then show ?case
    by (cases t) (simp_all add: split_def)
qed

lemma getitem_deterministic:
  assumes "list_all (\<lambda>t. \<not> is_random t) (ds_transform ds)"
  shows "getitem lib ds idx rng = map_sum id (\<lambda>p. (fst p, rng)) (getitem lib ds idx rng')"
  using Compose_deterministic [OF assms, of lib _ rng rng']
  by (auto simp: getitem_def split_def)

lemma fetch_deterministic:
  assumes "list_all (\<lambda>t. \<not> is_random t) (ds_transform ds)"
  shows "fetch lib ds idxs rng = map_sum id (\<lambda>p. (fst p, rng)) (fetch lib ds idxs rng')"
proof (induction idxs arbitrary: rng rng')
  case Nil
  show ?case by simp
next
  case (Cons idx idxs)
  have g: "getitem lib ds idx rng
             = map_sum id (\<lambda>p. (fst p, rng)) (getitem lib ds idx rng')"
    by (rule getitem_deterministic [OF assms])
  show ?case
  proof (cases "getitem lib ds idx rng'")
    case (Inl e)
    with g show ?thesis by simp
  next
    case (Inr p)
    obtain item g' where p: "p = (item, g')" by (cases p)
    have h: "fetch lib ds idxs rng = map_sum id (\<lambda>p. (fst p, rng)) (fetch lib ds idxs g')"
      by (rule Cons.IH)
    show ?thesis
      using g Inr p h by (cases "fetch lib ds idxs g'") (auto simp: split_def)
  qed
qed

lemma test_loop_deterministic:
  assumes "list_all (\<lambda>t. \<not> is_random t) (ds_transform ds)"
  shows "test_loop lib mdl ds bs acc rng
           = map_sum id (\<lambda>p. (fst p, rng)) (test_loop lib mdl ds bs acc rng')"
proof (induction bs arbitrary: acc rng rng')
  case Nil
  show ?case by simp
next
  case (Cons b bs)
  obtain test_loss correct where acc: "acc = (test_loss, correct)" by (cases acc)
  have f: "fetch lib ds b rng = map_sum id (\<lambda>p. (fst p, rng)) (fetch lib ds b rng')"
    by (rule fetch_deterministic [OF assms])
  show ?case
  proof (cases "fetch lib ds b rng'")
    case (Inl e)
    with f acc show ?thesis by simp
  next
    case (Inr p)
    obtain items g' where p: "p = (items, g')" by (cases p)
    show ?thesis
      using f Inr p acc Cons.IH [of _ rng g'] by (simp add: Let_def)
  qed
qed

lemma test_reproducible_without_random_transforms:
  assumes "list_all (\<lambda>t. \<not> is_random t) (ds_transform (sub_dataset (dl_dataset test_loader)))"
    and "\<not> dl_shuffle test_loader"
  shows "test lib mdl test_loader rng
           = map_sum id (\<lambda>p. (fst p, rng)) (test lib mdl test_loader rng')"
proof -
  define bs where "bs = batches (dl_batch_size test_loader) (sub_indices (dl_dataset test_loader))"
  define ds where "ds = sub_dataset (dl_dataset test_loader)"
  have loop: "test_loop lib mdl ds bs (0, 0) rng
                = map_sum id (\<lambda>p. (fst p, rng)) (test_loop lib mdl ds bs (0, 0) rng')"
    unfolding ds_def by (rule test_loop_deterministic [OF assms(1)])
  have t: "test lib mdl test_loader g =
             (case test_loop lib mdl ds bs (0, 0) g of
                Inl e \<Rightarrow> Inl e
              | Inr ((test_loss, correct), rng2) \<Rightarrow>
                  if length (sub_indices (dl_dataset test_loader)) = 0 then Inl ZeroDivisionError
                  else Inr (\<lparr>accuracy = 100 * real correct
                                          / real (length (sub_indices (dl_dataset test_loader))),
                             n_correct = correct,
                             n_total = length (sub_indices (dl_dataset test_loader)),
                             average_loss = test_loss
                                          / real (length (sub_indices (dl_dataset test_loader)))\<rparr>,
                            rng2))" for g
    using assms(2) by (simp add: test_def Let_def bs_def ds_def)
  show ?thesis
  proof (cases "test_loop lib mdl ds bs (0, 0) rng'")
    case (Inl e)
    with loop show ?thesis by (simp add: t)
  next
    case (Inr r)
    obtain test_loss correct g where r: "r = ((test_loss, correct), g)"
      by (cases r) auto
    from loop Inr r show ?thesis by (simp add: t)
  qed
qed

section \<open>Properties of \<open>train\<close>\<close>

lemma track_snoc:
  "track (xs @ [x]) bc = (case track xs bc of (b, c) \<Rightarrow> if b < x then (x, 0) else (b, c + 1))"
proof (induction xs arbitrary: bc)
  case Nil
  show ?case by (cases bc) simp
next
  case (Cons y ys)
  show ?case by (cases bc) (simp add: Cons.IH)
qed

lemma track_all_zero: "list_all (\<lambda>x. x = 0) xs \<Longrightarrow> track xs (0, c) = (0, c + length xs)"
  by (induction xs arbitrary: c) simp_all



lemma tracked_init: "tracked mdl (init_state h)"
  by (simp add: tracked_def init_state_def)

lemma load_tracked:
  assumes "tracked mdl s"
  shows "load_state_dict mdl (best_model s) h
           = (if best_score s = 0 then Inl TypeError
              else Inr (fold (\<lambda>(name, a) h'. case map_of (tensors mdl) name of
                                                None \<Rightarrow> h'
                                              | Some b \<Rightarrow> h'(a := h' b))
                             (tensors mdl) h))"
  using assms by (simp add: tracked_def load_state_dict_def state_dict_def)

lemma epoch_raises:
  assumes "len_train E = 0 \<or> len_valid E = 0"
  shows "\<exists>h'. epoch E mdl tol s = Inl (ZeroDivisionError, s\<lparr>heap := h'\<rparr>)"
proof (cases "len_train E = 0")
  case True
  then have "epoch E mdl tol s = Inl (ZeroDivisionError, s\<lparr>heap := heap s\<rparr>)"
    by (simp add: epoch_def Let_def)
  then show ?thesis by blast
next
  case False
  with assms have "epoch E mdl tol s
      = Inl (ZeroDivisionError, s\<lparr>heap := train_pass E (epochs_done s) (heap s)\<rparr>)"
    by (simp add: epoch_def Let_def)
  then show ?thesis by blast
qed

lemma epoch_unfold:
  assumes "0 < len_train E" and "0 < len_valid E"
  shows "epoch E mdl tol s =
    (let sc = epoch_score E s;
         s2 = s\<lparr>heap := train_pass E (epochs_done s) (heap s),
                 val_log := val_log s @ [sc],
                 epochs_done := epochs_done s + 1\<rparr>
     in if best_score s < sc
        then Inr (Continue,
                  s2\<lparr>best_score := sc, best_model := Some (state_dict mdl), count := 0\<rparr>)
        else if int (count s + 1) = tol
        then (case load_state_dict mdl (best_model s) (heap s2) of
                Inl e \<Rightarrow> Inl (e, s2\<lparr>count := count s + 1\<rparr>)
              | Inr h \<Rightarrow> Inr (Break, s2\<lparr>count := count s + 1, heap := h\<rparr>))
        else Inr (Continue, s2\<lparr>count := count s + 1\<rparr>))"
  using assms by (auto simp: epoch_def epoch_score_def Let_def split: sum.splits)

lemma epoch_score_nonneg: "0 \<le> epoch_score E s"
  by (simp add: epoch_score_def)

lemma epoch_after:
  assumes "0 < len_train E" and "0 < len_valid E" and "tracked mdl s"
  shows "\<exists>h'. after_epoch (epoch E mdl tol s) =
    (if best_score s < epoch_score E s
     then s\<lparr>val_log := val_log s @ [epoch_score E s], epochs_done := Suc (epochs_done s),
            best_score := epoch_score E s, best_model := Some (state_dict mdl), count := 0,
            heap := h'\<rparr>
     else s\<lparr>val_log := val_log s @ [epoch_score E s], epochs_done := Suc (epochs_done s),
            count := Suc (count s), heap := h'\<rparr>)"
proof (cases "best_score s < epoch_score E s")
  case True
  then have "after_epoch (epoch E mdl tol s) =
      s\<lparr>val_log := val_log s @ [epoch_score E s], epochs_done := Suc (epochs_done s),
        best_score := epoch_score E s, best_model := Some (state_dict mdl), count := 0,
        heap := train_pass E (epochs_done s) (heap s)\<rparr>"
    by (simp add: epoch_unfold [OF assms(1,2)] Let_def)
  with True show ?thesis by auto
next
  case False
  show ?thesis
  proof (cases "int (count s + 1) = tol \<and> best_score s \<noteq> 0")
    case True
    with False have "after_epoch (epoch E mdl tol s) =
      s\<lparr>val_log := val_log s @ [epoch_score E s], epochs_done := Suc (epochs_done s),
        count := Suc (count s),
        heap := fold (\<lambda>(name, a) h'. case map_of (tensors mdl) name of
                                         None \<Rightarrow> h'
                                       | Some b \<Rightarrow> h'(a := h' b))
                     (tensors mdl) (train_pass E (epochs_done s) (heap s))\<rparr>"
      by (simp add: epoch_unfold [OF assms(1,2)] Let_def load_tracked [OF assms(3)])
    with False show ?thesis by auto
  next
    case other: False
    with False have "after_epoch (epoch E mdl tol s) =
      s\<lparr>val_log := val_log s @ [epoch_score E s], epochs_done := Suc (epochs_done s),
        count := Suc (count s), heap := train_pass E (epochs_done s) (heap s)\<rparr>"
      by (auto simp: epoch_unfold [OF assms(1,2)] Let_def load_tracked [OF assms(3)])
    with False show ?thesis by auto
  qed
qed

lemma epoch_tracked:
  assumes "tracked mdl s"
  shows "tracked mdl (after_epoch (epoch E mdl tol s))"
proof (cases "len_train E = 0 \<or> len_valid E = 0")
  case True
  then obtain h' where "epoch E mdl tol s = Inl (ZeroDivisionError, s\<lparr>heap := h'\<rparr>)"
    using epoch_raises by blast
  with assms show ?thesis by (simp add: tracked_def)
next
  case False
  then have lm: "0 < len_train E" "0 < len_valid E" by simp_all
  have nn: "0 \<le> best_score s"
    using assms by (simp add: tracked_def)
  from epoch_after [OF lm assms, of tol] obtain h' where
    a: "after_epoch (epoch E mdl tol s) =
    (if best_score s < epoch_score E s
     then s\<lparr>val_log := val_log s @ [epoch_score E s], epochs_done := Suc (epochs_done s),
            best_score := epoch_score E s, best_model := Some (state_dict mdl), count := 0,
            heap := h'\<rparr>
     else s\<lparr>val_log := val_log s @ [epoch_score E s], epochs_done := Suc (epochs_done s),
            count := Suc (count s), heap := h'\<rparr>)" ..
  show ?thesis
  proof (cases "best_score s < epoch_score E s")
    case True
    with nn have "epoch_score E s \<noteq> 0" by simp
    with True assms show ?thesis
      unfolding a by (simp add: tracked_def track_snoc epoch_score_nonneg)
  next
    case False
    with assms show ?thesis
      unfolding a by (simp add: tracked_def track_snoc)
  qed
qed

lemma train_loop_tracked:
  "tracked mdl s \<Longrightarrow> tracked mdl (final_state (train_loop E mdl tol n s))"
proof (induction n arbitrary: s)
  case 0
  then show ?case by simp
next
  case (Suc n)
  have t: "tracked mdl (after_epoch (epoch E mdl tol s))"
    by (rule epoch_tracked [OF Suc.prems])
  show ?case
  proof (cases "epoch E mdl tol s")
    case (Inl x)
    with t show ?thesis by (cases x) simp
  next
    case (Inr y)
    obtain f s1 where y: "y = (f, s1)" by (cases y)
    with Inr t have t1: "tracked mdl s1" by simp
    show ?thesis
      using Inr y t1 Suc.IH [OF t1] by (cases f) simp_all
  qed
qed

lemma train_final_state:
  "val_log (final_state (train E mdl epochs tol h))
     = val_log (final_state (train_loop E mdl tol (nat epochs) (init_state h)))
   \<and> best_model (final_state (train E mdl epochs tol h))
     = best_model (final_state (train_loop E mdl tol (nat epochs) (init_state h)))
   \<and> best_score (final_state (train E mdl epochs tol h))
     = best_score (final_state (train_loop E mdl tol (nat epochs) (init_state h)))
   \<and> count (final_state (train E mdl epochs tol h))
     = count (final_state (train_loop E mdl tol (nat epochs) (init_state h)))
   \<and> epochs_done (final_state (train E mdl epochs tol h))
     = epochs_done (final_state (train_loop E mdl tol (nat epochs) (init_state h)))"
  by (auto simp: train_def split: sum.splits)

lemma train_tracked: "tracked mdl (final_state (train E mdl epochs tol h))"
  using train_loop_tracked [OF tracked_init, of mdl E tol "nat epochs" h] train_final_state [of E mdl epochs tol h]
  by (simp add: tracked_def)

lemma epoch_Inr_data:
  assumes "epoch E mdl tol s = Inr y"
  shows "0 < len_train E \<and> 0 < len_valid E"
proof (rule ccontr)
  assume "\<not> (0 < len_train E \<and> 0 < len_valid E)"
  then have "len_train E = 0 \<or> len_valid E = 0" by auto
  from epoch_raises [OF this, of mdl tol s] assms show False by auto
qed



lemma epoch_Inl:
  assumes "tracked mdl s" and "epoch E mdl tol s = Inl (e, s1)"
  shows "(e = ZeroDivisionError \<and> (len_train E = 0 \<or> len_valid E = 0) \<and> val_log s1 = val_log s)
       \<or> (e = TypeError \<and> 0 < len_train E \<and> 0 < len_valid E \<and> best_model s1 = None)"
proof (cases "len_train E = 0 \<or> len_valid E = 0")
  case True
  from epoch_raises [OF True, of mdl tol s] assms(2) True show ?thesis by auto
next
  case False
  then have lm: "0 < len_train E" "0 < len_valid E" by simp_all
  have none: "best_score s = 0 \<Longrightarrow> best_model s = None"
    using assms(1) by (simp add: tracked_def)
  from assms(2) lm none show ?thesis
    by (auto simp: epoch_unfold [OF lm] Let_def load_tracked [OF assms(1)] split: if_splits)
qed


lemma train_loop_Inl:
  "tracked mdl s \<Longrightarrow> train_loop E mdl tol n s = Inl (e, s') \<Longrightarrow>
     (e = ZeroDivisionError \<and> (len_train E = 0 \<or> len_valid E = 0) \<and> val_log s' = val_log s)
   \<or> (e = TypeError \<and> 0 < len_train E \<and> 0 < len_valid E \<and> best_model s' = None)"
proof (induction n arbitrary: s)
  case 0
  then show ?case by simp
next
  case (Suc n)
  show ?case
  proof (cases "epoch E mdl tol s")
    case (Inl x)
    with Suc.prems(2) have "epoch E mdl tol s = Inl (e, s')" by simp
    from epoch_Inl [OF Suc.prems(1) this] show ?thesis .
  next
    case (Inr y)
    obtain f s1 where y: "y = (f, s1)" by (cases y)
    have t1: "tracked mdl s1"
      using epoch_tracked [OF Suc.prems(1), of E tol] Inr y by simp
    from epoch_Inr_data [OF Inr] have lm: "0 < len_train E \<and> 0 < len_valid E" .
    show ?thesis
    proof (cases f)
      case Break
      with Inr y Suc.prems(2) show ?thesis by simp
    next
      case Continue
      with Inr y Suc.prems(2) have "train_loop E mdl tol n s1 = Inl (e, s')" by simp
      from Suc.IH [OF t1 this] lm show ?thesis by auto
    qed
  qed
qed

lemma fold_copy_self:
  assumes "\<And>name a. (name, a) \<in> set xs \<Longrightarrow> map_of d name = Some a"
  shows "fold (\<lambda>(name, a) h'. case map_of d name of None \<Rightarrow> h' | Some b \<Rightarrow> h'(a := h' b)) xs h = h"
  using assms
proof (induction xs arbitrary: h)
  case Nil
  show ?case by simp
next
  case (Cons x xs)
  obtain name a where x: "x = (name, a)" by (cases x)
  have "map_of d name = Some a" using Cons.prems x by simp
  moreover have "fold (\<lambda>(name, a) h'. case map_of d name of None \<Rightarrow> h' | Some b \<Rightarrow> h'(a := h' b)) xs h = h"
    using Cons.IH Cons.prems by simp
  ultimately show ?case using x by simp
qed

lemma load_own:
  assumes "distinct (map fst (tensors mdl))" and "tracked mdl s" and "best_score s \<noteq> 0"
  shows "load_state_dict mdl (best_model s) h = Inr h"
proof -
  have "fold (\<lambda>(name, a) h'. case map_of (tensors mdl) name of None \<Rightarrow> h' | Some b \<Rightarrow> h'(a := h' b))
          (tensors mdl) h = h"
    by (rule fold_copy_self) (simp add: assms(1))
  with assms(3) show ?thesis by (simp add: load_tracked [OF assms(2)])
qed

lemma epoch_heap:
  assumes "distinct (map fst (tensors mdl))" and "tracked mdl s"
    and "heap s = heap_after E (epochs_done s) h0"
    and "epoch E mdl tol s = Inr (f, s1)"
  shows "heap s1 = heap_after E (epochs_done s1) h0"
proof -
  from epoch_Inr_data [OF assms(4)] have lm: "0 < len_train E" "0 < len_valid E" by simp_all
  have ld: "load_state_dict mdl (best_model s) h
              = (if best_score s = 0 then Inl TypeError else Inr h)" for h :: "'a heap"
  proof (cases "best_score s = 0")
    case True
    then show ?thesis by (simp add: load_tracked [OF assms(2)])
  next
    case False
    then show ?thesis by (simp add: load_own [OF assms(1,2) False])
  qed
  from assms(3,4) show ?thesis
    by (auto simp: epoch_unfold [OF lm] Let_def ld split: if_splits)
qed

lemma train_loop_heap:
  assumes "distinct (map fst (tensors mdl))"
  shows "tracked mdl s \<Longrightarrow> heap s = heap_after E (epochs_done s) h0 \<Longrightarrow>
     train_loop E mdl tol n s = Inr s' \<Longrightarrow> heap s' = heap_after E (epochs_done s') h0"
proof (induction n arbitrary: s)
  case 0
  then show ?case by simp
next
  case (Suc n)
  show ?case
  proof (cases "epoch E mdl tol s")
    case (Inl x)
    with Suc.prems(3) show ?thesis by simp
  next
    case (Inr y)
    obtain f s1 where y: "y = (f, s1)" by (cases y)
    have t1: "tracked mdl s1"
      using epoch_tracked [OF Suc.prems(1), of E tol] Inr y by simp
    have h1: "heap s1 = heap_after E (epochs_done s1) h0"
      using epoch_heap [OF assms Suc.prems(1,2)] Inr y by simp
    show ?thesis
    proof (cases f)
      case Break
      with Inr y Suc.prems(3) h1 show ?thesis by simp
    next
      case Continue
      with Inr y Suc.prems(3) have "train_loop E mdl tol n s1 = Inr s'" by simp
      from Suc.IH [OF t1 h1 this] show ?thesis .
    qed
  qed
qed

lemma train_Inr:
  assumes "train E mdl epochs tol h = Inr s"
  obtains s0 h' where "train_loop E mdl tol (nat epochs) (init_state h) = Inr s0"
    and "load_state_dict mdl (best_model s0) (heap s0) = Inr h'"
    and "s = s0\<lparr>heap := h'\<rparr>"
  using assms by (auto simp: train_def split: sum.splits)


text \<open>
  C1. The claim makes the parameters after \<open>train\<close> equal to those recorded at the best
  epoch. What \<open>best_model\<close> holds are tensors on the parameters' own storage, so loading it
  copies every parameter onto itself: whenever \<open>train\<close> returns, the parameters are the ones
  the last epoch run left, whatever epoch scored best.
\<close>

theorem train_returns_last_epoch_parameters:
  assumes "distinct (map fst (tensors mdl))"
    and "train E mdl epochs tol h = Inr s"
  shows "heap s = heap_after E (epochs_done s) h
       \<and> contents mdl (heap s) = contents mdl (heap_after E (length (val_log s)) h)"
proof -
  from assms(2) obtain s0 h' where
    loop: "train_loop E mdl tol (nat epochs) (init_state h) = Inr s0"
    and ld: "load_state_dict mdl (best_model s0) (heap s0) = Inr h'"
    and s: "s = s0\<lparr>heap := h'\<rparr>"
    by (rule train_Inr)
  have t0: "tracked mdl s0"
    using train_loop_tracked [OF tracked_init, of mdl E tol "nat epochs" h] loop by simp
  have "heap (init_state h) = heap_after E (epochs_done (init_state h)) h"
    by (simp add: init_state_def)
  from train_loop_heap [OF assms(1) tracked_init this loop]
  have h0: "heap s0 = heap_after E (epochs_done s0) h" .
  have nz: "best_score s0 \<noteq> 0"
    using ld load_tracked [OF t0, of "heap s0"] by (auto split: if_splits)
  from load_own [OF assms(1) t0 nz, of "heap s0"] ld have "h' = heap s0" by simp
  with h0 s t0 show ?thesis
    by (simp add: tracked_def)
qed

theorem train_returns_last_epoch_parameters_witness:
  "distinct (map fst (tensors one_tensor))
   \<and> returns (train (scripted [50, 70, 60]) one_tensor 3 2 zeros)
   \<and> val_log (final_state (train (scripted [50, 70, 60]) one_tensor 3 2 zeros)) = [50, 70, 60]
   \<and> best_score (final_state (train (scripted [50, 70, 60]) one_tensor 3 2 zeros)) = 70
   \<and> contents one_tensor (heap (final_state (train (scripted [50, 70, 60]) one_tensor 3 2 zeros)))
       = contents one_tensor (heap_after (scripted [50, 70, 60]) 3 zeros)
   \<and> contents one_tensor (heap_after (scripted [50, 70, 60]) 3 zeros) = [3]
   \<and> contents one_tensor (heap_after (scripted [50, 70, 60]) 2 zeros) = [2]"
proof -
  have d: "distinct (map fst (tensors one_tensor))"
    by (simp add: one_tensor_def)
  have r: "returns (train (scripted [50, 70, 60]) one_tensor 3 2 zeros)"
    by code_simp
  then obtain s where s: "train (scripted [50, 70, 60]) one_tensor 3 2 zeros = Inr s"
    by (cases "train (scripted [50, 70, 60]) one_tensor 3 2 zeros") simp_all
  have l: "val_log (final_state (train (scripted [50, 70, 60]) one_tensor 3 2 zeros)) = [50, 70, 60]"
    by code_simp
  have b: "best_score (final_state (train (scripted [50, 70, 60]) one_tensor 3 2 zeros)) = 70"
    by code_simp
  have c3: "contents one_tensor (heap_after (scripted [50, 70, 60]) 3 zeros) = [3]"
    by code_simp
  have c2: "contents one_tensor (heap_after (scripted [50, 70, 60]) 2 zeros) = [2]"
    by code_simp
  have ls: "length (val_log s) = 3"
    using l s by simp
  have fs: "final_state (train (scripted [50, 70, 60]) one_tensor 3 2 zeros) = s"
    using s by simp
  from train_returns_last_epoch_parameters [OF d s]
  have "contents one_tensor (heap s)
          = contents one_tensor (heap_after (scripted [50, 70, 60]) (length (val_log s)) zeros)"
    by (rule conjunct2)
  then have "contents one_tensor (heap (final_state (train (scripted [50, 70, 60]) one_tensor 3 2 zeros)))
       = contents one_tensor (heap_after (scripted [50, 70, 60]) 3 zeros)"
    by (simp only: ls fs)
  with d r l b c3 c2 show ?thesis by simp
qed




text \<open>
  C9. With \<open>epochs = 0\<close> the loop body never runs: no training pass, no score, and
  \<open>best_model\<close> is still \<open>None\<close> when line 129 loads it, which raises. Nothing checks \<open>epochs\<close>
  first.
\<close>

theorem train_zero_epochs:
  "train E mdl 0 tol h = Inl (TypeError, init_state h)
   \<and> \<not> returns (train E mdl 0 tol h)
   \<and> best_model (final_state (train E mdl 0 tol h)) = None
   \<and> val_log (final_state (train E mdl 0 tol h)) = []
   \<and> epochs_done (final_state (train E mdl 0 tol h)) = 0
   \<and> heap (final_state (train E mdl 0 tol h)) = h"
  by (simp add: train_def init_state_def load_state_dict_def)

text \<open>
  C10. If no score of a run exceeds 0, then \<open>best_model\<close> is never assigned and \<open>train\<close> does
  not return: the load at the early stop or after the loop gets \<open>None\<close> and raises TypeError
  (or the run has already failed on an empty dataset). So \<open>epochs \<ge> 1\<close> does not make \<open>train\<close>
  return.
\<close>

theorem train_fails_when_no_score_exceeds_zero:
  assumes "list_all (\<lambda>x. x = 0) (val_log (final_state (train E mdl epochs tol h)))"
  shows "\<not> returns (train E mdl epochs tol h)
       \<and> best_model (final_state (train E mdl epochs tol h)) = None
       \<and> (\<exists>e s. train E mdl epochs tol h = Inl (e, s)
              \<and> (e = TypeError \<or> len_train E = 0 \<or> len_valid E = 0))"
proof -
  define R where "R = train E mdl epochs tol h"
  have tr: "tracked mdl (final_state R)"
    unfolding R_def by (rule train_tracked)
  from track_all_zero [OF assms, of 0] tr have bz: "best_score (final_state R) = 0"
    by (simp add: tracked_def R_def)
  with tr have bn: "best_model (final_state R) = None"
    by (simp add: tracked_def)
  have loop_t: "tracked mdl (final_state (train_loop E mdl tol (nat epochs) (init_state h)))"
    by (rule train_loop_tracked [OF tracked_init])
  have fails: "\<exists>e s. R = Inl (e, s) \<and> (e = TypeError \<or> len_train E = 0 \<or> len_valid E = 0)"
  proof (cases R)
    case (Inr s)
    then obtain s0 h' where
      loop: "train_loop E mdl tol (nat epochs) (init_state h) = Inr s0"
      and ld: "load_state_dict mdl (best_model s0) (heap s0) = Inr h'"
      and s: "s = s0\<lparr>heap := h'\<rparr>"
      unfolding R_def by (rule train_Inr)
    from loop_t loop have t0: "tracked mdl s0" by simp
    from ld load_tracked [OF t0, of "heap s0"] have "best_score s0 \<noteq> 0"
      by (auto split: if_splits)
    with bz Inr s show ?thesis by simp
  next
    case (Inl x)
    obtain e s where x: "x = (e, s)" by (cases x)
    show ?thesis
    proof (cases "train_loop E mdl tol (nat epochs) (init_state h)")
      case inl: (Inl y)
      with Inl x have "train_loop E mdl tol (nat epochs) (init_state h) = Inl (e, s)"
        by (simp add: R_def train_def)
      from train_loop_Inl [OF tracked_init this] Inl x show ?thesis by auto
    next
      case inr: (Inr s0)
      with loop_t have t0: "tracked mdl s0" by simp
      from inr Inl x load_tracked [OF t0, of "heap s0"] have "e = TypeError"
        by (auto simp: R_def train_def split: sum.splits if_splits)
      with Inl x show ?thesis by simp
    qed
  qed
  then have "\<not> returns R" by auto
  with bn fails show ?thesis
    by (simp add: R_def)
qed

theorem train_fails_when_no_score_exceeds_zero_witness:
  "val_log (final_state (train (scripted [0, 0, 0]) one_tensor 3 10 zeros)) = [0, 0, 0]
   \<and> list_all (\<lambda>x. x = 0) (val_log (final_state (train (scripted [0, 0, 0]) one_tensor 3 10 zeros)))
   \<and> \<not> returns (train (scripted [0, 0, 0]) one_tensor 3 10 zeros)
   \<and> best_model (final_state (train (scripted [0, 0, 0]) one_tensor 3 10 zeros)) = None
   \<and> (\<exists>s. train (scripted [0, 0, 0]) one_tensor 3 10 zeros = Inl (TypeError, s))"
proof -
  have l: "val_log (final_state (train (scripted [0, 0, 0]) one_tensor 3 10 zeros)) = [0, 0, 0]"
    by code_simp
  then have z: "list_all (\<lambda>x. x = 0)
                  (val_log (final_state (train (scripted [0, 0, 0]) one_tensor 3 10 zeros)))"
    by simp
  have d: "len_train (scripted [0, 0, 0]) \<noteq> 0" "len_valid (scripted [0, 0, 0]) \<noteq> 0"
    by (simp_all add: scripted_def)
  from train_fails_when_no_score_exceeds_zero [OF z] d l z show ?thesis
    by auto
qed

end
